theory Spec2Isabelle
  imports
    Main
    "HOL-Library.Sublist"
    "HOL-Library.Char_ord"
    "HOL-Library.List_Lexorder"
    "HOL-Library.AList"
begin

section \<open>NewsAgg-Mini: articles, topics, classifier and article store\<close>

text \<open>
  A shallow embedding of \<^verbatim>\<open>src/main.py\<close>. A Python \<^verbatim>\<open>str\<close> is a \<open>string\<close>, one
  \<open>char\<close> standing for one character of the text; \<open>Optional[str]\<close> is \<open>string option\<close>.
  With \<open>Char_ord\<close> and \<open>List_Lexorder\<close> the order on \<open>string\<close> is the lexicographic
  order by character code, which is how Python compares two \<^verbatim>\<open>str\<close> values.

  Library functions that the program calls but does not define are parameters of the
  model: the MD5 hex digest (\<open>md5\<close>), the clock reading \<^verbatim>\<open>datetime.now(timezone.utc).isoformat()\<close>
  (\<open>now\<close>, \<open>clock\<close>), and the feed library's date conversion (\<open>isoformat\<close>).
\<close>

subsection \<open>Python truthiness of an optional string\<close>

text \<open>\<^verbatim>\<open>x or d\<close> for \<^verbatim>\<open>x: Optional[str]\<close>: \<^verbatim>\<open>None\<close> and \<^verbatim>\<open>""\<close> are falsy.\<close>

definition str_or :: "string option \<Rightarrow> string \<Rightarrow> string" where
  "str_or x d = (case x of None \<Rightarrow> d | Some s \<Rightarrow> if s = [] then d else s)"

subsection \<open>Article (lines 60-99)\<close>

record Article =
  title :: string
  url :: string
  source :: string
  summary :: string
  published :: string
  topics :: "string list"
  id_art :: string

text \<open>
  \<^verbatim>\<open>Article.__init__\<close>. \<open>md5\<close> is \<^verbatim>\<open>hashlib.md5(s.encode()).hexdigest()\<close>; \<open>now\<close> is the
  clock reading that line 68 takes when \<^verbatim>\<open>published\<close> is falsy.
\<close>

definition Article_init ::
  "(string \<Rightarrow> string) \<Rightarrow> string \<Rightarrow> string \<Rightarrow> string \<Rightarrow> string \<Rightarrow>
   string option \<Rightarrow> string option \<Rightarrow> Article" where
  "Article_init md5 now title' url' source' summary' published' =
     \<lparr> title = title',
       url = url',
       source = source',
       summary = str_or summary' [],
       published = str_or published' now,
       topics = [],
       id_art = take 12 (md5 (source' @ ''|'' @ url' @ ''|'' @ title')) \<rparr>"

text \<open>
  The dictionary that \<^verbatim>\<open>to_dict\<close> builds and \<^verbatim>\<open>from_dict\<close> reads: a key that is absent is
  \<open>None\<close>. The values are of the types the program writes (strings, a list of strings).
\<close>

record article_dict =
  d_id :: "string option"
  d_title :: "string option"
  d_url :: "string option"
  d_source :: "string option"
  d_summary :: "string option"
  d_published :: "string option"
  d_topics :: "string list option"

definition to_dict :: "Article \<Rightarrow> article_dict" where
  "to_dict a =
     \<lparr> d_id = Some (id_art a),
       d_title = Some (title a),
       d_url = Some (url a),
       d_source = Some (source a),
       d_summary = Some (summary a),
       d_published = Some (published a),
       d_topics = Some (topics a) \<rparr>"

datatype error = KeyError string | ReadError | ValueError

text \<open>
  \<^verbatim>\<open>Article.from_dict\<close>: \<^verbatim>\<open>data['title']\<close>, \<^verbatim>\<open>data['url']\<close> and \<^verbatim>\<open>data['source']\<close> raise
  \<^verbatim>\<open>KeyError\<close> on an absent key, in this order; the other keys are read with \<^verbatim>\<open>get\<close>.
\<close>

definition from_dict ::
  "(string \<Rightarrow> string) \<Rightarrow> string \<Rightarrow> article_dict \<Rightarrow> error + Article" where
  "from_dict md5 now data =
     (case d_title data of
        None \<Rightarrow> Inl (KeyError ''title'')
      | Some t \<Rightarrow>
     (case d_url data of
        None \<Rightarrow> Inl (KeyError ''url'')
      | Some u \<Rightarrow>
     (case d_source data of
        None \<Rightarrow> Inl (KeyError ''source'')
      | Some s \<Rightarrow>
          let art = Article_init md5 now t u s (d_summary data) (d_published data);
              art = art\<lparr>id_art := (case d_id data of None \<Rightarrow> id_art art | Some i \<Rightarrow> i)\<rparr>;
              art = art\<lparr>topics := (case d_topics data of None \<Rightarrow> [] | Some ts \<Rightarrow> ts)\<rparr>
          in Inr art)))"

subsection \<open>Topic (lines 102-119)\<close>

text \<open>
  \<^verbatim>\<open>str.lower()\<close> on the letters \<^verbatim>\<open>A\<close> to \<^verbatim>\<open>Z\<close>; every other character is left as it is,
  so the model covers text whose cased letters are the ASCII ones.
\<close>

definition lower_char :: "char \<Rightarrow> char" where
  "lower_char c =
     (case map_of (zip ''ABCDEFGHIJKLMNOPQRSTUVWXYZ'' ''abcdefghijklmnopqrstuvwxyz'') c of
        None \<Rightarrow> c
      | Some l \<Rightarrow> l)"

definition lower :: "string \<Rightarrow> string" where
  "lower s = map lower_char s"

text \<open>\<^verbatim>\<open>word in text\<close> on strings: \<open>word\<close> occurs in \<open>text\<close> as a contiguous substring.\<close>

fun str_contains :: "string \<Rightarrow> string \<Rightarrow> bool" where
  "str_contains w [] = (w = [])"
| "str_contains w (c # cs) = (prefix w (c # cs) \<or> str_contains w cs)"

text \<open>The field \<^verbatim>\<open>keywords\<close> is \<open>keywords_t\<close> here.\<close>

record Topic =
  name :: string
  keywords_t :: "string list"
  exclude_words :: "string list"

definition Topic_init :: "string \<Rightarrow> string list \<Rightarrow> string list option \<Rightarrow> Topic" where
  "Topic_init name' keywords' exclude_words' =
     \<lparr> name = name',
       keywords_t = map lower keywords',
       exclude_words = map lower (case exclude_words' of None \<Rightarrow> [] | Some ws \<Rightarrow> ws) \<rparr>"

definition matches :: "Topic \<Rightarrow> string \<Rightarrow> bool" where
  "matches t text =
     (let text_lower = lower text in
      if list_ex (\<lambda>word. str_contains word text_lower) (exclude_words t) then False
      else list_ex (\<lambda>keyword. str_contains keyword text_lower) (keywords_t t))"

subsection \<open>RSSFetcher.fetch (lines 132-187)\<close>

text \<open>
  A feed entry as the feed library hands it over: an absent key is \<open>None\<close>;
  \<open>e_published_parsed\<close> is \<open>None\<close> when the attribute is absent or falsy. The calls
  of \<^verbatim>\<open>self.logger\<close> in the fetcher and in the classifier are left out.
\<close>

record entry =
  e_title :: "string option"
  e_link :: "string option"
  e_id :: "string option"
  e_summary :: "string option"
  e_description :: "string option"
  e_published_parsed :: "int list option"

text \<open>
  The body of the loop of lines 156-184. \<open>isoformat\<close> is
  \<^verbatim>\<open>datetime(*t, tzinfo=timezone.utc).isoformat()\<close>, which may raise; the \<^verbatim>\<open>except\<close> of line
  182 then skips the entry.
\<close>

definition fetch_entry ::
  "(string \<Rightarrow> string) \<Rightarrow> (int list \<Rightarrow> error + string) \<Rightarrow> string \<Rightarrow> string \<Rightarrow>
   entry \<Rightarrow> error + Article" where
  "fetch_entry md5 isoformat now source_name e =
     (let title' = (case e_title e of None \<Rightarrow> ''No Title'' | Some t \<Rightarrow> t);
          url' = (case e_link e of
                    Some l \<Rightarrow> l
                  | None \<Rightarrow> (case e_id e of None \<Rightarrow> [] | Some i \<Rightarrow> i));
          summary' = take 500 (str_or (e_summary e) (str_or (e_description e) []))
      in case e_published_parsed e of
           None \<Rightarrow> Inr (Article_init md5 now title' url' source_name (Some summary') None)
         | Some tp \<Rightarrow>
             (case isoformat (take 6 tp) of
                Inl err \<Rightarrow> Inl err
              | Inr published' \<Rightarrow>
                  Inr (Article_init md5 now title' url' source_name
                         (Some summary') (Some published'))))"

text \<open>\<open>clock i\<close> is the clock reading while the \<open>i\<close>-th entry is built.\<close>

fun fetch_entries ::
  "(string \<Rightarrow> string) \<Rightarrow> (int list \<Rightarrow> error + string) \<Rightarrow> (nat \<Rightarrow> string) \<Rightarrow> string \<Rightarrow>
   nat \<Rightarrow> entry list \<Rightarrow> Article list" where
  "fetch_entries md5 isoformat clock source_name i [] = []"
| "fetch_entries md5 isoformat clock source_name i (e # es) =
     (case fetch_entry md5 isoformat (clock i) source_name e of
        Inl err \<Rightarrow> fetch_entries md5 isoformat clock source_name (Suc i) es
      | Inr article \<Rightarrow> article # fetch_entries md5 isoformat clock source_name (Suc i) es)"

text \<open>
  \<open>netloc\<close> is \<^verbatim>\<open>urlparse(feed_url).netloc\<close> and \<open>parse\<close> is \<^verbatim>\<open>feedparser.parse\<close>, giving
  the entries of the feed or raising.
\<close>

definition fetch ::
  "(string \<Rightarrow> string) \<Rightarrow> (int list \<Rightarrow> error + string) \<Rightarrow> (nat \<Rightarrow> string) \<Rightarrow>
   (string \<Rightarrow> string) \<Rightarrow> (string \<Rightarrow> error + entry list) \<Rightarrow>
   string \<Rightarrow> string option \<Rightarrow> Article list" where
  "fetch md5 isoformat clock netloc parse feed_url source_name =
     (let source_name' = str_or source_name (netloc feed_url)
      in case parse feed_url of
           Inl err \<Rightarrow> []
         | Inr entries \<Rightarrow> fetch_entries md5 isoformat clock source_name' 0 (take 20 entries))"

subsection \<open>Classifier.classify (lines 201-232)\<close>

text \<open>
  \<^verbatim>\<open>classify\<close> appends to the \<^verbatim>\<open>topics\<close> list of the very objects it is given and puts the
  same objects into the buckets, so the articles live in a store: a \<open>ref\<close> is an object,
  the heap gives its current value. The result dictionary keeps its keys in insertion
  order, as a Python \<^verbatim>\<open>dict\<close> does: an association list, written with \<open>AList.update\<close>.
\<close>

type_synonym ref = nat
type_synonym heap = "ref \<Rightarrow> Article"
type_synonym buckets = "(string \<times> ref list) list"

text \<open>\<^verbatim>\<open>result[k].append(r)\<close>; every key used is in \<open>result\<close> from line 208 or 209 on.\<close>

definition bucket_append :: "string \<Rightarrow> ref \<Rightarrow> buckets \<Rightarrow> buckets" where
  "bucket_append k r result = AList.map_entry k (\<lambda>v. v @ [r]) result"

text \<open>The inner loop, lines 216-220, for the article \<open>r\<close> with its search text.\<close>

fun classify_topics ::
  "Topic list \<Rightarrow> string \<Rightarrow> ref \<Rightarrow> buckets \<times> heap \<times> bool \<Rightarrow> buckets \<times> heap \<times> bool" where
  "classify_topics [] search_text r s = s"
| "classify_topics (topic # ts) search_text r (result, h, matched) =
     (if matches topic search_text
      then classify_topics ts search_text r
             (bucket_append (name topic) r result,
              h(r := (h r)\<lparr>topics := topics (h r) @ [name topic]\<rparr>),
              True)
      else classify_topics ts search_text r (result, h, matched))"

text \<open>The outer loop, lines 211-223.\<close>

fun classify_loop :: "Topic list \<Rightarrow> ref list \<Rightarrow> buckets \<times> heap \<Rightarrow> buckets \<times> heap" where
  "classify_loop ts [] s = s"
| "classify_loop ts (r # rs) (result, h) =
     (let search_text = title (h r) @ '' '' @ summary (h r);
          (result', h', matched) = classify_topics ts search_text r (result, h, False);
          result'' = (if \<not> matched then bucket_append ''uncategorized'' r result' else result')
      in classify_loop ts rs (result'', h'))"

definition classify :: "Topic list \<Rightarrow> ref list \<Rightarrow> heap \<Rightarrow> buckets \<times> heap" where
  "classify ts articles h =
     (let result = fold (\<lambda>topic d. AList.update (name topic) [] d) ts [];
          result = AList.update ''uncategorized'' [] result;
          (result, h') = classify_loop ts articles (result, h);
          result = filter (\<lambda>(k, v). v \<noteq> []) result
      in (result, h'))"

subsection \<open>Storage (lines 239-292)\<close>

text \<open>
  A stored file either cannot be read as a JSON list of objects (\<open>Unreadable\<close>: the file
  cannot be opened, is not JSON, or is JSON of another shape) or holds a list of
  dictionaries. The storage state is the data directory, the files under it by path, and
  the records that \<^verbatim>\<open>self.logger\<close> has received. Writing a file always succeeds.
\<close>

datatype stored_file = Unreadable | Json "article_dict list"

datatype log_record =
    Warning_could_not_load_existing error
  | Info_saved nat string
  | Error_could_not_load error

record Storage =
  data_dir :: string
  files :: "string \<rightharpoonup> stored_file"
  logger :: "log_record list"

definition file_path :: "Storage \<Rightarrow> string \<Rightarrow> string" where
  "file_path st topic = data_dir st @ ''/'' @ topic @ ''_articles.json''"

text \<open>
  \<^verbatim>\<open>[Article.from_dict(d) for d in data]\<close>: the first record that raises ends the
  comprehension. \<open>clock i\<close> is the clock reading while the \<open>i\<close>-th record is built.
\<close>

fun from_dicts ::
  "(string \<Rightarrow> string) \<Rightarrow> (nat \<Rightarrow> string) \<Rightarrow> nat \<Rightarrow> article_dict list \<Rightarrow> error + Article list" where
  "from_dicts md5 clock i [] = Inr []"
| "from_dicts md5 clock i (d # ds) =
     (case from_dict md5 (clock i) d of
        Inl e \<Rightarrow> Inl e
      | Inr a \<Rightarrow>
          (case from_dicts md5 clock (Suc i) ds of
             Inl e \<Rightarrow> Inl e
           | Inr as \<Rightarrow> Inr (a # as)))"

text \<open>The body of the \<^verbatim>\<open>try\<close> of lines 257-259 and 287-289.\<close>

definition read_file ::
  "(string \<Rightarrow> string) \<Rightarrow> (nat \<Rightarrow> string) \<Rightarrow> stored_file \<Rightarrow> error + Article list" where
  "read_file md5 clock f =
     (case f of Unreadable \<Rightarrow> Inl ReadError | Json data \<Rightarrow> from_dicts md5 clock 0 data)"

text \<open>
  \<^verbatim>\<open>list.sort(key=lambda a: a.published or "", reverse=True)\<close>: a stable sort in
  descending order of the key, articles with equal keys keeping their order.
\<close>

definition published_key :: "Article \<Rightarrow> string" where
  "published_key a = str_or (Some (published a)) []"

definition sort_desc :: "Article list \<Rightarrow> Article list" where
  "sort_desc xs = rev (sort_key published_key (rev xs))"

definition save_articles ::
  "(string \<Rightarrow> string) \<Rightarrow> (nat \<Rightarrow> string) \<Rightarrow> Storage \<Rightarrow> Article list \<Rightarrow> string \<Rightarrow>
   nat \<times> Storage" where
  "save_articles md5 clock st articles topic =
     (let path = file_path st topic;
          (existing_articles, st) =
            (case files st path of
               None \<Rightarrow> ([], st)
             | Some f \<Rightarrow>
                 (case read_file md5 clock f of
                    Inl e \<Rightarrow> ([], st\<lparr>logger := logger st @ [Warning_could_not_load_existing e]\<rparr>)
                  | Inr as \<Rightarrow> (as, st)));
          existing_ids = set (map id_art existing_articles);
          new_articles = filter (\<lambda>a. id_art a \<notin> existing_ids) articles;
          all_articles = existing_articles @ new_articles;
          all_articles = sort_desc all_articles;
          all_articles = take 100 all_articles;
          st = st\<lparr>files := (files st)(path \<mapsto> Json (map to_dict all_articles))\<rparr>;
          st = st\<lparr>logger := logger st @ [Info_saved (length new_articles) path]\<rparr>
      in (length new_articles, st))"

definition load_articles ::
  "(string \<Rightarrow> string) \<Rightarrow> (nat \<Rightarrow> string) \<Rightarrow> Storage \<Rightarrow> string \<Rightarrow> Article list \<times> Storage" where
  "load_articles md5 clock st topic =
     (case files st (file_path st topic) of
        None \<Rightarrow> ([], st)
      | Some f \<Rightarrow>
          (case read_file md5 clock f of
             Inr as \<Rightarrow> (as, st)
           | Inl e \<Rightarrow> ([], st\<lparr>logger := logger st @ [Error_could_not_load e]\<rparr>)))"

text \<open>
  A run of saves, as \<^verbatim>\<open>main\<close> makes one (lines 485-488): each call has its own clock,
  batch and partition key.
\<close>

fun save_all ::
  "(string \<Rightarrow> string) \<Rightarrow> Storage \<Rightarrow> ((nat \<Rightarrow> string) \<times> Article list \<times> string) list \<Rightarrow> Storage" where
  "save_all md5 st [] = st"
| "save_all md5 st ((clock, articles, topic) # calls) =
     save_all md5 (snd (save_articles md5 clock st articles topic)) calls"

subsection \<open>Example inputs\<close>

text \<open>
  Concrete inputs for the examples below. \<open>md5_digests ! n\<close> is the MD5 hex digest of the
  text \<^verbatim>\<open>feed|u|\<close> followed by \<open>n\<close> letters \<^verbatim>\<open>x\<close>, for \<open>n\<close> from 0 to 100, and \<open>md5_ex\<close> is MD5
  on these texts. \<open>example_article n\<close> is the article
  \<^verbatim>\<open>Article(title="x"*n, url="u", source="feed", summary="s", published="2024-01-01T00:00:00+00:00")\<close>.
\<close>

definition md5_digests :: "string list" where
  "md5_digests =
     [
      ''d04fd397e272cd502e6433572c354679'', ''a69109f73862a1cfdc429a1f4f195a95'',
      ''69972d07e994be691c058a931794a60c'', ''ad0f8bcb889154294e6fff4f988ff724'',
      ''185ce025e7217fc6ce34f66d605b6503'', ''ab669cfa2868d47a8c65a0a4fa4b6fbf'',
      ''be0dc62308277d55d40eb251b71b3aa1'', ''704e3db0afb8c33b686a311499ce358f'',
      ''4a217a3a53694144719c1b5636d74006'', ''3c6d3ce06f6a3084672e0a8e685e48d5'',
      ''3b63a0d5d6a0c01ef023f65a8bff8f42'', ''589e4d5177dc444fc52cec4fbbf5aced'',
      ''0633a490895315aa7bf6cce1afc6a15a'', ''7f8e07ff6dceef3fa802c6ee5229f2b7'',
      ''7965f6fc9a7688eb7cdcf955572f5f8d'', ''aed0baa293383ab51341919fc2254ff8'',
      ''3b76a867b299af0171690902998f59c8'', ''2922dfe7d0507dd340b3331f16b0b6f3'',
      ''532727d970c3f07cc9e0cecb16c1774a'', ''74aefd458d0c2350fa92054960f83847'',
      ''9aa5f5f51ba2f362605825357ea9be9c'', ''7ecec2c7e3f75db21abeca3af5701306'',
      ''03e76c9d608ff73a14ab7a0b5b7c9a90'', ''8bdf5f14218ad12cf7a00acde4feeb70'',
      ''eb30b4ca82cd3406836bf8313e6c4ad9'', ''e3c05e145a55e9f2d091649a24a34b9f'',
      ''bdf868a598a8d954318f5ca723986529'', ''fd1fba6ec351b426e3fd6f754e2966c5'',
      ''5f041a57a3370a2236679849f59b197e'', ''0fb3717d84c73137520fcfab2b50f898'',
      ''81a3a0466ed4e584652abb4f1d790b25'', ''ffacd468772e498a6d69c5eaa7a7570d'',
      ''4a44fde04f0b8e8bdeec8af99f6463ca'', ''f6cbc2e16df172071861dd982263a59e'',
      ''131ddc87caa7be78a749477c5c65a276'', ''faaa7ccffb057b68563cce76807c9bd6'',
      ''a4d1e97361954962a9376fd872c3e4da'', ''2c0e8e758fb85ad45057387b8b8b98f8'',
      ''fb0e29d27c1919627f7f0ff8275ce498'', ''dd18f0c5c21ddb1742586050aee6ad0e'',
      ''625ce29efdff611d7532eda25cad5313'', ''f7a2e4ddbe98dbeeed99aa9802b620ce'',
      ''41802170dd3369365aca4f54db179cd7'', ''933d594c7dfb23edcbbe22be1d9a0584'',
      ''ff81cf5258173c6e9b469e5563c438bf'', ''809ff5b78731700d62ab667d9e64a3ed'',
      ''4b81b3eb3352c57ec3008b96889dd5f9'', ''14a74a13f5f57de306eaf439584834a1'',
      ''b402be52e0835e146b79a05dd62d102c'', ''491dc595e68cca4f04c7bb6ef772da00'',
      ''0fff5503ac76afeaaea4b847732fc91d'', ''80cedc901d57763d549436f83778a483'',
      ''f8f736c5c345e82b5b090ca7737854c3'', ''5579231ae8c8bac210045273c1a2470e'',
      ''57f6f7d73f8c0551ec89ab2c73f51f0f'', ''ec50bca4f2c5bcbfe29950e043e78bf8'',
      ''67b1340ed00f8ecc955b18f88a7810be'', ''d78ef7f8a0e9b38ea6fdf963af1c7edd'',
      ''e68b31df0636515e812169fddd245744'', ''c38997bf8be3a9163c0fe7389c7379b9'',
      ''6fac822c943a5feeaa9c850c48c1a9c8'', ''240095a4db3e543f81d8a739f7f47056'',
      ''61d8e6fcb38302ba0d9833b6a9517b81'', ''0a54c172161c9535536d69e790f0e039'',
      ''ec90151801c126353a9519b878a02a59'', ''ae5818126d2aea8d72a3288dc35aaa25'',
      ''ce6975a668c7b34708a22c41ecf470f3'', ''ebc434a5f76afeb3f4caa7c5b0dee9a5'',
      ''156bfcbfcfaec758b8d12d3e02624ef8'', ''e928af7cd37f4010dd2e8cf6f7614dcd'',
      ''b6067d24d502031e96af38119e27b431'', ''5a2ffb131a0d1aefa1225203579b2121'',
      ''93a5660247ab1b97b4368fd15cdc4029'', ''c5f51e02c751cdc7d384571906c925cd'',
      ''ce810f94c291bd0dbefc85205bab8998'', ''2f502071a22d8e9b88d964cb0f43d43f'',
      ''fb7bc177c6f57a6527bd43ea031bde0e'', ''99b53316b013f274478687a338c37c21'',
      ''63755a601e00e41ea8587c76c7975440'', ''05b290a2f2a6b9362540a43d37f036bb'',
      ''3fb3577b636a3de6c51ad9b47e988c68'', ''058fd3fb6f17878b8effc4181b4b2e8f'',
      ''a70b24945a6513fc43436221c193c199'', ''b03cfc4d6abef59652cb4692ff4c3a48'',
      ''0795d7b76aac8c40af162456984f67f3'', ''db84cea0ba1b44f6db423d6d922cf4d7'',
      ''114b0675a6c5ee96bd05da64ab90adaa'', ''a992ae70dff4b46d1a6ce4d9da663d3a'',
      ''d96e226cb2734b18de171e28756190c9'', ''35d1f4530a1c17535e16c07674fa59cb'',
      ''96e16172083e9e836cab99d897e4c87c'', ''2bef8620a26d6893ed93d729f47d525b'',
      ''e6768816096f7a56484f897344a01bd2'', ''ffca146f43996635553e2aab6934509b'',
      ''de1c0a33eae4923816a12014ef3b2ee0'', ''14a9974334aec52e3740e3788fc97701'',
      ''c57b60171fd8811202d2fb08c1730ff2'', ''81af3423cca2a8d867e710f9e9a4654e'',
      ''0d1ae705b05a54bd440bc26c88ddc1b0'', ''3b0a3bdd72c4a7d1dd08fa36a01cb90e'',
      ''c459ff01d7f4c8645bd5ce536933da76''
     ]"

definition md5_ex :: "string \<Rightarrow> string" where
  "md5_ex s =
     (let n = length s - 7
      in if n < 101 \<and> s = ''feed|u|'' @ replicate n (CHR ''x'') then md5_digests ! n else [])"

definition clock_ex :: "nat \<Rightarrow> string" where
  "clock_ex i = ''2024-06-01T12:00:00+00:00''"

definition example_article :: "nat \<Rightarrow> Article" where
  "example_article n =
     Article_init md5_ex (clock_ex 0) (replicate n (CHR ''x'')) ''u'' ''feed''
       (Some ''s'') (Some ''2024-01-01T00:00:00+00:00'')"

definition empty_storage :: Storage where
  "empty_storage = \<lparr> data_dir = ''data'', files = Map.empty, logger = [] \<rparr>"

definition topic_AI :: Topic where
  "topic_AI = Topic_init ''AI'' [''ai'', ''llm''] None"

text \<open>A feed of one entry whose summary has 600 characters.\<close>

definition entry_ex :: entry where
  "entry_ex =
     \<lparr> e_title = Some ''x'', e_link = Some ''u'', e_id = None,
       e_summary = Some (replicate 600 (CHR ''a'')), e_description = None,
       e_published_parsed = None \<rparr>"

definition parse_ex :: "string \<Rightarrow> error + entry list" where
  "parse_ex feed_url = Inr [entry_ex]"

definition isoformat_ex :: "int list \<Rightarrow> error + string" where
  "isoformat_ex tp = Inr ''2024-01-01T00:00:00+00:00''"

definition netloc_ex :: "string \<Rightarrow> string" where
  "netloc_ex feed_url = ''example.org''"

text \<open>A topic that excludes \<^verbatim>\<open>Thai\<close>, and the two topics used with the example articles.\<close>

definition topic_AI_no_thai :: Topic where
  "topic_AI_no_thai = Topic_init ''AI'' [''ai'', ''llm''] (Some [''Thai''])"

definition topic_two :: Topic where
  "topic_two = Topic_init ''Two'' [''xx''] None"

definition topic_three :: Topic where
  "topic_three = Topic_init ''Three'' [''XXX''] None"

text \<open>A heap whose object \<open>r\<close> is \<open>example_article r\<close>.\<close>

definition heap_ex :: heap where
  "heap_ex r = example_article r"

text \<open>
  A storage whose partition \<^verbatim>\<open>all\<close> cannot be read, and one whose partition \<^verbatim>\<open>all\<close> holds
  a record without a title.
\<close>

definition unreadable_storage :: Storage where
  "unreadable_storage =
     \<lparr> data_dir = ''data'', files = [''data/all_articles.json'' \<mapsto> Unreadable], logger = [] \<rparr>"

definition corrupt_storage :: Storage where
  "corrupt_storage =
     \<lparr> data_dir = ''data'',
       files = [''data/all_articles.json'' \<mapsto> Json [(to_dict (example_article 1))\<lparr>d_title := None\<rparr>]],
       logger = [] \<rparr>"

text \<open>
  A storage whose partition \<^verbatim>\<open>all\<close> holds \<open>example_article 0\<close>, and an article with the
  (source, url, title) of \<open>example_article 0\<close> but another summary and date.
\<close>

definition one_article_storage :: Storage where
  "one_article_storage =
     \<lparr> data_dir = ''data'',
       files = [''data/all_articles.json'' \<mapsto> Json [to_dict (example_article 0)]],
       logger = [] \<rparr>"

definition example_article_edited :: Article where
  "example_article_edited =
     Article_init md5_ex (clock_ex 0) [] ''u'' ''feed''
       (Some ''edited'') (Some ''2025-02-02T00:00:00+00:00'')"

section \<open>Articles\<close>

text \<open>
  Claim C3: the id of a constructed article is the first 12 characters of the digest of
  \<^verbatim>\<open>source|url|title\<close>; it is the same for every summary, published value and clock
  reading, so two articles with the same (source, url, title) have equal ids.
\<close>

theorem Article_id_deterministic:
  "id_art (Article_init md5 now1 t u s summary1 published1) = take 12 (md5 (s @ ''|'' @ u @ ''|'' @ t))
   \<and> id_art (Article_init md5 now1 t u s summary1 published1) =
     id_art (Article_init md5 now2 t u s summary2 published2)"
  by (simp add: Article_init_def)

section \<open>Topic matching\<close>

text \<open>\<open>str_contains\<close> is the substring relation.\<close>

lemma str_contains_iff: "str_contains w t \<longleftrightarrow> (\<exists>p s. t = p @ w @ s)"
proof (induction t)
  case Nil
  then show ?case by auto
next
  case (Cons c cs)
  show ?case
  proof
    assume "str_contains w (c # cs)"
    then consider "prefix w (c # cs)" | "str_contains w cs" by auto
    then show "\<exists>p s. c # cs = p @ w @ s"
    proof cases
      case 1
      then obtain s where "c # cs = w @ s" by (auto simp: prefix_def)
      then have "c # cs = [] @ w @ s" by simp
      then show ?thesis by blast
    next
      case 2
      with Cons.IH obtain p s where "cs = p @ w @ s" by blast
      then have "c # cs = (c # p) @ w @ s" by simp
      then show ?thesis by blast
    qed
  next
    assume "\<exists>p s. c # cs = p @ w @ s"
    then obtain p s where ps: "c # cs = p @ w @ s" by blast
    show "str_contains w (c # cs)"
    proof (cases p)
      case Nil
      with ps have "prefix w (c # cs)" by (simp add: prefix_def)
      then show ?thesis by simp
    next
      case (Cons a p')
      with ps have "cs = p' @ w @ s" by simp
      with Cons.IH have "str_contains w cs" by blast
      then show ?thesis by simp
    qed
  qed
qed

lemma lower_examples:
  "lower ''New LLM released'' = ''new llm released''"
  "lower ''Thai food trends'' = ''thai food trends''"
  by (simp_all add: lower_def lower_char_def)

text \<open>
  Claim C4: if one of the topic's exclude words occurs as a substring of the lowercased
  text, \<open>matches\<close> returns false, whatever the include keywords are.
\<close>

theorem matches_exclude_precedence:
  assumes "w \<in> set (exclude_words t)" and "lower text = p @ w @ s"
  shows "\<not> matches t text"
proof -
  from assms(2) have "str_contains w (lower text)"
    unfolding str_contains_iff by blast
  with assms(1) have "list_ex (\<lambda>word. str_contains word (lower text)) (exclude_words t)"
    unfolding list_ex_iff by blast
  then show ?thesis
    by (simp add: matches_def)
qed

text \<open>
  The text \<^verbatim>\<open>Thai food trends\<close> holds the include keyword \<^verbatim>\<open>ai\<close> and the exclude word
  \<^verbatim>\<open>thai\<close> of \<open>topic_AI_no_thai\<close>: the topic does not match.
\<close>

theorem matches_exclude_precedence_witness:
  "''thai'' \<in> set (exclude_words topic_AI_no_thai)
   \<and> ''ai'' \<in> set (keywords_t topic_AI_no_thai)
   \<and> lower ''Thai food trends'' = [] @ ''thai'' @ '' food trends''
   \<and> lower ''Thai food trends'' = ''th'' @ ''ai'' @ '' food trends''
   \<and> \<not> matches topic_AI_no_thai ''Thai food trends''"
proof -
  have w: "''thai'' \<in> set (exclude_words topic_AI_no_thai)"
    by (simp add: topic_AI_no_thai_def Topic_init_def lower_def lower_char_def)
  have k: "''ai'' \<in> set (keywords_t topic_AI_no_thai)"
    by (simp add: topic_AI_no_thai_def Topic_init_def lower_def lower_char_def)
  have l: "lower ''Thai food trends'' = [] @ ''thai'' @ '' food trends''"
    by (simp add: lower_def lower_char_def)
  have l': "lower ''Thai food trends'' = ''th'' @ ''ai'' @ '' food trends''"
    by (simp add: lower_def lower_char_def)
  from matches_exclude_precedence [OF w l] w k l l' show ?thesis by blast
qed

text \<open>
  Claim C5: matching is case-insensitive substring matching. With no exclude word in the
  lowercased text, \<open>matches\<close> is true exactly when some include keyword occurs in it as a
  substring; the topic AI with keywords \<^verbatim>\<open>ai\<close> and \<^verbatim>\<open>llm\<close> matches \<^verbatim>\<open>New LLM released\<close> and
  also \<^verbatim>\<open>Thai food trends\<close>.
\<close>

theorem matches_substring:
  "((\<forall>w\<in>set (exclude_words t). \<not> (\<exists>p s. lower text = p @ w @ s)) \<longrightarrow>
      matches t text = (\<exists>k\<in>set (keywords_t t). \<exists>p s. lower text = p @ k @ s))
   \<and> matches topic_AI ''New LLM released''
   \<and> matches topic_AI ''Thai food trends''"
proof (intro conjI impI)
  assume "\<forall>w\<in>set (exclude_words t). \<not> (\<exists>p s. lower text = p @ w @ s)"
  then have "\<not> list_ex (\<lambda>word. str_contains word (lower text)) (exclude_words t)"
    unfolding list_ex_iff str_contains_iff by blast
  then show "matches t text = (\<exists>k\<in>set (keywords_t t). \<exists>p s. lower text = p @ k @ s)"
    by (simp add: matches_def list_ex_iff str_contains_iff)
next
  show "matches topic_AI ''New LLM released''"
    by (simp add: topic_AI_def Topic_init_def matches_def lower_def lower_char_def)
next
  show "matches topic_AI ''Thai food trends''"
    by (simp add: topic_AI_def Topic_init_def matches_def lower_def lower_char_def)
qed

theorem matches_substring_witness:
  "exclude_words topic_AI = []
   \<and> ''ai'' \<in> set (keywords_t topic_AI)
   \<and> lower ''Thai food trends'' = ''th'' @ ''ai'' @ '' food trends''
   \<and> matches topic_AI ''Thai food trends''"
proof -
  have e: "exclude_words topic_AI = []"
    by (simp add: topic_AI_def Topic_init_def)
  have k: "''ai'' \<in> set (keywords_t topic_AI)"
    by (simp add: topic_AI_def Topic_init_def lower_def lower_char_def)
  have l: "lower ''Thai food trends'' = ''th'' @ ''ai'' @ '' food trends''"
    by (simp add: lower_def lower_char_def)
  from e have "\<forall>w\<in>set (exclude_words topic_AI). \<not> (\<exists>p s. lower ''Thai food trends'' = p @ w @ s)"
    by simp
  with matches_substring [of topic_AI "''Thai food trends''"]
  have "matches topic_AI ''Thai food trends'' =
          (\<exists>k\<in>set (keywords_t topic_AI). \<exists>p s. lower ''Thai food trends'' = p @ k @ s)"
    by blast
  with k l have "matches topic_AI ''Thai food trends''" by blast
  with e k l show ?thesis by blast
qed

section \<open>Serialisation\<close>

text \<open>
  Line 68 leaves no article with an empty \<^verbatim>\<open>published\<close>: the constructor puts the clock
  reading, which is never empty, in the place of a falsy value, and nothing else assigns
  the field.
\<close>

lemma from_dict_to_dict: "published a \<noteq> [] \<Longrightarrow> from_dict md5 now (to_dict a) = Inr a"
  by (simp add: from_dict_def to_dict_def Article_init_def str_or_def)

lemma Article_init_published:
  "now \<noteq> [] \<Longrightarrow> published (Article_init md5 now t u s sm p) \<noteq> []"
  by (simp add: Article_init_def str_or_def split: option.splits)


lemma example_article_published: "published (example_article n) \<noteq> []"
  by (simp add: example_article_def Article_init_def str_or_def)

text \<open>
  Claim C10: \<^verbatim>\<open>from_dict(a.to_dict())\<close> is \<open>a\<close> on every field, the stored id and topics
  included, for every article whose \<^verbatim>\<open>published\<close> is not empty. That is every article
  of the program: whatever the constructor is given, and whatever id and topics are
  assigned afterwards, the article it builds goes through the round trip unchanged.
\<close>

theorem Article_roundtrip:
  "(published a \<noteq> [] \<longrightarrow> from_dict md5 now (to_dict a) = Inr a)
   \<and> (now0 \<noteq> [] \<longrightarrow>
        from_dict md5 now
          (to_dict ((Article_init md5 now0 t u s sm p)\<lparr>topics := ts, id_art := i\<rparr>)) =
        Inr ((Article_init md5 now0 t u s sm p)\<lparr>topics := ts, id_art := i\<rparr>))"
proof (intro conjI impI)
  assume "published a \<noteq> []"
  then show "from_dict md5 now (to_dict a) = Inr a"
    by (simp add: from_dict_def to_dict_def Article_init_def str_or_def)
next
  assume "now0 \<noteq> []"
  then have "published ((Article_init md5 now0 t u s sm p)\<lparr>topics := ts, id_art := i\<rparr>) \<noteq> []"
    by (simp add: Article_init_published)
  then show "from_dict md5 now
          (to_dict ((Article_init md5 now0 t u s sm p)\<lparr>topics := ts, id_art := i\<rparr>)) =
        Inr ((Article_init md5 now0 t u s sm p)\<lparr>topics := ts, id_art := i\<rparr>)"
    by (rule from_dict_to_dict)
qed

theorem Article_roundtrip_witness:
  "published (example_article 3) \<noteq> []
   \<and> from_dict md5_ex (clock_ex 0) (to_dict (example_article 3)) = Inr (example_article 3)
   \<and> clock_ex 0 \<noteq> []
   \<and> from_dict md5_ex (clock_ex 1)
        (to_dict ((Article_init md5_ex (clock_ex 0) ''x'' ''u'' ''feed'' None None)
           \<lparr>topics := [''AI''], id_art := ''0123456789ab''\<rparr>)) =
      Inr ((Article_init md5_ex (clock_ex 0) ''x'' ''u'' ''feed'' None None)
           \<lparr>topics := [''AI''], id_art := ''0123456789ab''\<rparr>)"
proof -
  have p: "published (example_article 3) \<noteq> []"
    by (simp add: example_article_def Article_init_def str_or_def)
  have c: "clock_ex 0 \<noteq> []"
    by (simp add: clock_ex_def)
  note t1 = Article_roundtrip [where a = "example_article 3" and ?md5.0 = md5_ex
      and now = "clock_ex 0" and now0 = "clock_ex 0"]
  note t2 = Article_roundtrip [where ?md5.0 = md5_ex and now = "clock_ex 1" and now0 = "clock_ex 0"
      and t = "''x''" and u = "''u''" and s = "''feed''" and sm = None and p = None
      and ts = "[''AI'']" and i = "''0123456789ab''"]
  from mp [OF conjunct1 [OF t1] p] mp [OF conjunct2 [OF t2] c] p c
  show ?thesis by (intro conjI)
qed

section \<open>Fetching\<close>




text \<open>The feed of \<open>parse_ex\<close> has one entry with a summary of 600 characters.\<close>

lemma fetch_ex:
  "fetch md5_ex isoformat_ex clock_ex netloc_ex parse_ex ''http://example.org/feed'' None =
     [Article_init md5_ex (clock_ex 0) ''x'' ''u'' ''example.org''
        (Some (replicate 500 (CHR ''a''))) None]"
  by (simp add: fetch_def parse_ex_def netloc_ex_def entry_ex_def fetch_entry_def str_or_def)


lemma fetch_ex_length:
  "map (\<lambda>a. length (summary a))
     (fetch md5_ex isoformat_ex clock_ex netloc_ex parse_ex ''http://example.org/feed'' None) = [500]"
  by (simp add: fetch_ex Article_init_def str_or_def)

section \<open>Loading\<close>

text \<open>
  Claim C8: \<open>load_articles\<close> returns the empty list when the file of the partition is
  absent, when it cannot be read, and when one of its records lacks a required key; in
  the last two cases the error is logged. The function has no error result: the
  \<^verbatim>\<open>except Exception\<close> of line 290 catches whatever the \<^verbatim>\<open>try\<close> raises.
\<close>

theorem load_articles_unreadable:
  "(files st (file_path st topic) = None \<longrightarrow>
      load_articles md5 clock st topic = ([], st))
   \<and> (files st (file_path st topic) = Some Unreadable \<longrightarrow>
        load_articles md5 clock st topic =
          ([], st\<lparr>logger := logger st @ [Error_could_not_load ReadError]\<rparr>))
   \<and> (files st (file_path st topic) = Some (Json ds) \<and> from_dicts md5 clock 0 ds = Inl e \<longrightarrow>
        load_articles md5 clock st topic =
          ([], st\<lparr>logger := logger st @ [Error_could_not_load e]\<rparr>))"
  by (simp add: load_articles_def read_file_def)

theorem load_articles_unreadable_witness:
  "files empty_storage (file_path empty_storage ''all'') = None
   \<and> load_articles md5_ex clock_ex empty_storage ''all'' = ([], empty_storage)
   \<and> files unreadable_storage (file_path unreadable_storage ''all'') = Some Unreadable
   \<and> load_articles md5_ex clock_ex unreadable_storage ''all'' =
       ([], unreadable_storage\<lparr>logger := logger unreadable_storage @ [Error_could_not_load ReadError]\<rparr>)
   \<and> files corrupt_storage (file_path corrupt_storage ''all'') =
       Some (Json [(to_dict (example_article 1))\<lparr>d_title := None\<rparr>])
   \<and> from_dicts md5_ex clock_ex 0 [(to_dict (example_article 1))\<lparr>d_title := None\<rparr>] = Inl (KeyError ''title'')
   \<and> load_articles md5_ex clock_ex corrupt_storage ''all'' =
       ([], corrupt_storage\<lparr>logger := logger corrupt_storage @ [Error_could_not_load (KeyError ''title'')]\<rparr>)"
proof -
  have a: "files empty_storage (file_path empty_storage ''all'') = None"
    by (simp add: empty_storage_def)
  have b: "files unreadable_storage (file_path unreadable_storage ''all'') = Some Unreadable"
    by (simp add: unreadable_storage_def file_path_def)
  have c: "files corrupt_storage (file_path corrupt_storage ''all'') =
       Some (Json [(to_dict (example_article 1))\<lparr>d_title := None\<rparr>])"
    by (simp add: corrupt_storage_def file_path_def)
  have d: "from_dicts md5_ex clock_ex 0 [(to_dict (example_article 1))\<lparr>d_title := None\<rparr>] = Inl (KeyError ''title'')"
    by (simp add: from_dict_def to_dict_def)
  from load_articles_unreadable [where st = empty_storage and topic = "''all''" and ?md5.0 = md5_ex and clock = clock_ex] a
  have 1: "load_articles md5_ex clock_ex empty_storage ''all'' = ([], empty_storage)"
    by blast
  from load_articles_unreadable [where st = unreadable_storage and topic = "''all''" and ?md5.0 = md5_ex and clock = clock_ex] b
  have 2: "load_articles md5_ex clock_ex unreadable_storage ''all'' =
       ([], unreadable_storage\<lparr>logger := logger unreadable_storage @ [Error_could_not_load ReadError]\<rparr>)"
    by blast
  from load_articles_unreadable [where st = corrupt_storage and topic = "''all''" and ?md5.0 = md5_ex
      and clock = clock_ex and ds = "[(to_dict (example_article 1))\<lparr>d_title := None\<rparr>]"
      and e = "KeyError ''title''"] c d
  have 3: "load_articles md5_ex clock_ex corrupt_storage ''all'' =
       ([], corrupt_storage\<lparr>logger := logger corrupt_storage @ [Error_could_not_load (KeyError ''title'')]\<rparr>)"
    by blast
  from a b c d 1 2 3 show ?thesis by blast
qed

section \<open>The article store\<close>

subsection \<open>Sorting\<close>

lemma published_key_eq: "published_key a = published a"
  by (simp add: published_key_def str_or_def)

lemma set_sort_desc: "set (sort_desc xs) = set xs"
  by (simp add: sort_desc_def)


lemma sorted_sort_desc: "sorted_wrt (\<lambda>a b. published_key b \<le> published_key a) (sort_desc xs)"
proof -
  have "sorted (map published_key (sort_key published_key (rev xs)))"
    by (rule sorted_sort_key)
  then have "sorted_wrt (\<lambda>a b. published_key a \<le> published_key b) (sort_key published_key (rev xs))"
    by (simp add: sorted_map)
  then show ?thesis
    unfolding sort_desc_def by (simp add: sorted_wrt_rev)
qed

lemma sort_desc_id:
  assumes "sorted_wrt (\<lambda>a b. published_key b \<le> published_key a) xs"
  shows "sort_desc xs = xs"
proof -
  from assms have "sorted_wrt (\<lambda>a b. published_key a \<le> published_key b) (rev xs)"
    by (simp add: sorted_wrt_rev)
  then have "sorted (map published_key (rev xs))"
    by (simp add: sorted_map)
  then have "sort_key published_key (rev xs) = rev xs"
    by (rule sort_key_id_if_sorted)
  then show ?thesis by (simp add: sort_desc_def)
qed


lemma sort_desc_const:
  assumes "\<forall>a\<in>set xs. published_key a = k"
  shows "sort_desc xs = xs"
proof (rule sort_desc_id)
  from assms show "sorted_wrt (\<lambda>a b. published_key b \<le> published_key a) xs"
    by (simp add: sorted_wrt_iff_nth_less)
qed

lemma distinct_sort_desc: "distinct (map f (sort_desc xs)) = distinct (map f xs)"
  by (simp add: distinct_map set_sort_desc) (simp add: sort_desc_def)

subsection \<open>Reading what was written\<close>

lemma from_dicts_to_dict:
  "\<forall>a\<in>set as. published a \<noteq> [] \<Longrightarrow> from_dicts md5 clock i (map to_dict as) = Inr as"
  by (induction as arbitrary: i) (simp_all add: from_dict_to_dict)


lemma from_dicts_length:
  "from_dicts md5 clock i ds = Inr as \<Longrightarrow> length as = length ds"
  by (induction ds arbitrary: i as) (auto split: sum.splits)

lemma inj_to_dict: "inj to_dict"
  by (rule injI) (simp add: to_dict_def)

subsection \<open>What a save computes\<close>

lemma save_articles_fst:
  "fst (save_articles md5 clock st articles topic) =
     length (filter (\<lambda>a. id_art a \<notin> id_art ` set (fst (load_articles md5 clock st topic))) articles)"
  by (simp add: save_articles_def load_articles_def Let_def split: option.splits sum.splits)

lemma save_articles_files:
  "files (snd (save_articles md5 clock st articles topic)) =
     (files st)(file_path st topic \<mapsto>
        Json (map to_dict (take 100 (sort_desc
          (fst (load_articles md5 clock st topic) @
           filter (\<lambda>a. id_art a \<notin> id_art ` set (fst (load_articles md5 clock st topic))) articles)))))"
  by (simp add: save_articles_def load_articles_def Let_def split: option.splits sum.splits)

lemma save_articles_data_dir:
  "data_dir (snd (save_articles md5 clock st articles topic)) = data_dir st"
  by (simp add: save_articles_def Let_def split: option.splits sum.splits)

lemma save_articles_file_path:
  "file_path (snd (save_articles md5 clock st articles topic)) topic' = file_path st topic'"
  by (simp add: file_path_def save_articles_data_dir)

lemma load_articles_Json:
  "files st (file_path st topic) = Some (Json (map to_dict as)) \<Longrightarrow>
   \<forall>a\<in>set as. published a \<noteq> [] \<Longrightarrow>
   fst (load_articles md5 clock st topic) = as"
  by (simp add: load_articles_def read_file_def from_dicts_to_dict)

lemma load_articles_length:
  "files st (file_path st topic) = Some (Json ds) \<Longrightarrow>
   length (fst (load_articles md5 clock st topic)) \<le> length ds"
  by (auto simp: load_articles_def read_file_def split: sum.splits dest: from_dicts_length)


lemma load_articles_absent:
  "files st (file_path st topic) = None \<Longrightarrow> fst (load_articles md5 clock st topic) = []"
  by (simp add: load_articles_def)

lemma save_all_data_dir: "data_dir (save_all md5 st calls) = data_dir st"
  by (induction calls arbitrary: st) (auto simp: save_articles_data_dir)

lemma save_all_inv:
  "\<forall>ds. files st p = Some (Json ds) \<longrightarrow> length ds \<le> 100 \<Longrightarrow>
   \<forall>ds. files (save_all md5 st calls) p = Some (Json ds) \<longrightarrow> length ds \<le> 100"
proof (induction calls arbitrary: st)
  case Nil
  then show ?case by simp
next
  case (Cons c calls)
  obtain clock articles topic where c: "c = (clock, articles, topic)"
    by (cases c) auto
  let ?st = "snd (save_articles md5 clock st articles topic)"
  have "\<forall>ds. files ?st p = Some (Json ds) \<longrightarrow> length ds \<le> 100"
    using Cons.prems by (auto simp: save_articles_files)
  from Cons.IH [OF this] show ?case by (simp add: c)
qed

lemma load_articles_cap:
  "\<forall>ds. files st (file_path st topic) = Some (Json ds) \<longrightarrow> length ds \<le> 100 \<Longrightarrow>
   length (fst (load_articles md5 clock st topic)) \<le> 100"
proof (cases "files st (file_path st topic)")
  case None
  then show ?thesis by (simp add: load_articles_def)
next
  case (Some f)
  assume a: "\<forall>ds. files st (file_path st topic) = Some (Json ds) \<longrightarrow> length ds \<le> 100"
  show ?thesis
  proof (cases f)
    case Unreadable
    with Some show ?thesis by (simp add: load_articles_def read_file_def)
  next
    case (Json ds)
    with Some have "files st (file_path st topic) = Some (Json ds)" by simp
    with a load_articles_length [OF this, of md5 clock] show ?thesis by fastforce
  qed
qed

lemma save_all_load_cap:
  assumes "\<forall>ds. files st (file_path st topic) = Some (Json ds) \<longrightarrow> length ds \<le> 100"
  shows "length (fst (load_articles md5 clock (save_all md5 st calls) topic)) \<le> 100"
proof (rule load_articles_cap)
  have "file_path (save_all md5 st calls) topic = file_path st topic"
    by (simp add: file_path_def save_all_data_dir)
  with save_all_inv [OF assms, of md5 calls]
  show "\<forall>ds. files (save_all md5 st calls) (file_path (save_all md5 st calls) topic) = Some (Json ds)
          \<longrightarrow> length ds \<le> 100"
    by simp
qed

subsection \<open>Merging a batch\<close>

lemma merged_distinct:
  assumes "distinct (map f es)" and "distinct (map f xs)"
  shows "distinct (map f (es @ filter (\<lambda>a. f a \<notin> f ` set es) xs))"
proof -
  let ?N = "filter (\<lambda>a. f a \<notin> f ` set es) xs"
  have 1: "distinct (map f ?N)"
    using assms(2) by (rule distinct_map_filter)
  have 2: "set (map f es) \<inter> set (map f ?N) = {}"
  proof (rule ccontr)
    assume "set (map f es) \<inter> set (map f ?N) \<noteq> {}"
    then obtain y where y1: "y \<in> set (map f es)" and y2: "y \<in> set (map f ?N)"
      by (meson disjoint_iff)
    from y2 obtain b where b: "b \<in> set ?N" and yb: "y = f b"
      by (auto simp only: set_map)
    from b have "f b \<notin> f ` set es" by simp
    with y1 yb show False by (simp only: set_map)
  qed
  have "distinct (map f es @ map f ?N)"
    using assms(1) 1 2 by (simp only: distinct_append simp_thms)
  then show ?thesis by (simp only: map_append)
qed

subsection \<open>The partition after a save\<close>

text \<open>
  Claim C1, as the code has it: after every \<open>save_articles\<close> the persisted partition
  holds at most 100 articles, ordered by \<^verbatim>\<open>published\<close> descending under string
  comparison, and whatever saves follow, loading it gives at most 100 articles; the same
  bound holds after any run of saves on a storage whose file for the partition is absent,
  unreadable or of at most 100 records. The fingerprints of the persisted partition are
  pairwise distinct when those of the loaded existing sequence and those of the batch
  are: the batch is compared with the stored fingerprints only, not with itself.
\<close>

theorem save_articles_partition:
  "(\<exists>as. files (snd (save_articles md5 clock st articles topic)) (file_path st topic) =
           Some (Json (map to_dict as))
      \<and> length as \<le> 100
      \<and> sorted_wrt (\<lambda>a b. published b \<le> published a) as
      \<and> (distinct (map id_art (fst (load_articles md5 clock st topic))) \<and>
         distinct (map id_art articles) \<longrightarrow> distinct (map id_art as)))
   \<and> length (fst (load_articles md5 clock'
        (save_all md5 (snd (save_articles md5 clock st articles topic)) calls) topic)) \<le> 100
   \<and> ((\<forall>ds. files st (file_path st topic) = Some (Json ds) \<longrightarrow> length ds \<le> 100) \<longrightarrow>
        length (fst (load_articles md5 clock' (save_all md5 st calls) topic)) \<le> 100)"
proof -
  let ?E = "fst (load_articles md5 clock st topic)"
  let ?N = "filter (\<lambda>a. id_art a \<notin> id_art ` set ?E) articles"
  let ?as = "take 100 (sort_desc (?E @ ?N))"
  let ?st = "snd (save_articles md5 clock st articles topic)"
  have f: "files ?st (file_path st topic) = Some (Json (map to_dict ?as))"
    by (simp add: save_articles_files)
  have l: "length ?as \<le> 100" by simp
  have "sorted_wrt (\<lambda>a b. published_key b \<le> published_key a) (sort_desc (?E @ ?N))"
    by (rule sorted_sort_desc)
  then have "sorted_wrt (\<lambda>a b. published b \<le> published a) (sort_desc (?E @ ?N))"
    by (simp add: published_key_eq)
  then have s: "sorted_wrt (\<lambda>a b. published b \<le> published a) ?as"
    by (rule sorted_wrt_take)
  have d: "distinct (map id_art ?as)"
    if "distinct (map id_art ?E) \<and> distinct (map id_art articles)"
  proof -
    from that have "distinct (map id_art (?E @ ?N))"
      by (intro merged_distinct) simp_all
    then have "distinct (map id_art (sort_desc (?E @ ?N)))"
      by (simp only: distinct_sort_desc)
    then have "distinct (take 100 (map id_art (sort_desc (?E @ ?N))))"
      by (rule distinct_take)
    then show ?thesis by (simp add: take_map)
  qed
  have c: "length (fst (load_articles md5 clock' (save_all md5 ?st calls) topic)) \<le> 100"
  proof (rule save_all_load_cap)
    from f l show "\<forall>ds. files ?st (file_path ?st topic) = Some (Json ds) \<longrightarrow> length ds \<le> 100"
      by (simp add: save_articles_file_path)
  qed
  have g: "length (fst (load_articles md5 clock' (save_all md5 st calls) topic)) \<le> 100"
    if "\<forall>ds. files st (file_path st topic) = Some (Json ds) \<longrightarrow> length ds \<le> 100"
    using that by (rule save_all_load_cap)
  from f l s d have "\<exists>as. files ?st (file_path st topic) = Some (Json (map to_dict as))
      \<and> length as \<le> 100
      \<and> sorted_wrt (\<lambda>a b. published b \<le> published a) as
      \<and> (distinct (map id_art ?E) \<and> distinct (map id_art articles) \<longrightarrow> distinct (map id_art as))"
    by blast
  with c g show ?thesis by (intro conjI impI)
qed

lemma example_ids_0_1: "id_art (example_article 0) \<noteq> id_art (example_article 1)"
  by (simp add: example_article_def Article_init_def md5_ex_def md5_digests_def)

theorem save_articles_partition_witness:
  "distinct (map id_art (fst (load_articles md5_ex clock_ex empty_storage ''all'')))
   \<and> distinct (map id_art [example_article 0, example_article 1])
   \<and> files empty_storage (file_path empty_storage ''all'') = None
   \<and> (\<exists>as. files (snd (save_articles md5_ex clock_ex empty_storage
                [example_article 0, example_article 1] ''all''))
              (file_path empty_storage ''all'') = Some (Json (map to_dict as))
        \<and> length as \<le> 100
        \<and> sorted_wrt (\<lambda>a b. published b \<le> published a) as
        \<and> distinct (map id_art as))
   \<and> length (fst (load_articles md5_ex clock_ex
        (save_all md5_ex empty_storage
           [(clock_ex, [example_article 0], ''all''), (clock_ex, [example_article 1], ''all'')])
        ''all'')) \<le> 100"
proof -
  have e: "distinct (map id_art (fst (load_articles md5_ex clock_ex empty_storage ''all'')))"
    by (simp add: load_articles_def empty_storage_def)
  have b: "distinct (map id_art [example_article 0, example_article 1])"
    using example_ids_0_1 by simp
  have n: "files empty_storage (file_path empty_storage ''all'') = None"
    by (simp add: empty_storage_def)
  then have h: "\<forall>ds. files empty_storage (file_path empty_storage ''all'') = Some (Json ds)
      \<longrightarrow> length ds \<le> 100"
    by simp
  note t = save_articles_partition [where ?md5.0 = md5_ex and clock = clock_ex and st = empty_storage
      and articles = "[example_article 0, example_article 1]" and topic = "''all''"
      and clock' = clock_ex
      and calls = "[(clock_ex, [example_article 0], ''all''), (clock_ex, [example_article 1], ''all'')]"]
  from t e b have 1: "\<exists>as. files (snd (save_articles md5_ex clock_ex empty_storage
                [example_article 0, example_article 1] ''all''))
              (file_path empty_storage ''all'') = Some (Json (map to_dict as))
        \<and> length as \<le> 100
        \<and> sorted_wrt (\<lambda>a b. published b \<le> published a) as
        \<and> distinct (map id_art as)"
    by blast
  from t h have 2: "length (fst (load_articles md5_ex clock_ex
        (save_all md5_ex empty_storage
           [(clock_ex, [example_article 0], ''all''), (clock_ex, [example_article 1], ''all'')])
        ''all'')) \<le> 100"
    by blast
  from e b n 1 2 show ?thesis by (intro conjI)
qed

text \<open>
  A batch that holds the same article twice, saved to an absent partition: both copies
  are persisted, so the fingerprints of the partition are not unique.
\<close>

theorem save_articles_duplicate_counterexample:
  "files (snd (save_articles md5_ex clock_ex empty_storage
            [example_article 0, example_article 0] ''all''))
     (file_path empty_storage ''all'') =
     Some (Json (map to_dict [example_article 0, example_article 0]))
   \<and> \<not> distinct (map id_art [example_article 0, example_article 0])"
proof -
  have "sort_desc [example_article 0, example_article 0] = [example_article 0, example_article 0]"
    by (rule sort_desc_const [where k = "published_key (example_article 0)"]) simp
  then show ?thesis
    by (simp add: save_articles_files load_articles_def empty_storage_def)
qed

subsection \<open>Saving twice\<close>


lemma example_article_edited_id: "id_art example_article_edited = id_art (example_article 0)"
  by (simp add: example_article_edited_def example_article_def Article_init_def)








subsection \<open>Known fingerprints\<close>

text \<open>
  Claim C7: an incoming article whose fingerprint is among those of the loaded existing
  sequence is dropped. The save returns the same count and the same storage as without
  it; every persisted article with that fingerprint is one of the loaded existing
  articles, with all its fields; and when the file held the records of articles
  \<open>stored\<close>, every persisted record with that fingerprint is one of the records the
  file held before.
\<close>

theorem save_drops_known:
  assumes "id_art b \<in> id_art ` set (fst (load_articles md5 clock st topic))"
  shows "save_articles md5 clock st (pre @ b # post) topic =
         save_articles md5 clock st (pre @ post) topic
     \<and> (\<exists>as. files (snd (save_articles md5 clock st (pre @ b # post) topic)) (file_path st topic) =
               Some (Json (map to_dict as))
          \<and> (\<forall>a\<in>set as. id_art a = id_art b \<longrightarrow>
                a \<in> set (fst (load_articles md5 clock st topic))))
     \<and> (files st (file_path st topic) = Some (Json (map to_dict stored))
          \<and> (\<forall>a\<in>set stored. published a \<noteq> []) \<longrightarrow>
          (\<exists>ds. files (snd (save_articles md5 clock st (pre @ b # post) topic)) (file_path st topic) =
                 Some (Json ds)
            \<and> (\<forall>d\<in>set ds. d_id d = Some (id_art b) \<longrightarrow> d \<in> set (map to_dict stored))))"
proof -
  let ?E = "fst (load_articles md5 clock st topic)"
  let ?P = "\<lambda>a. id_art a \<notin> id_art ` set ?E"
  have 1: "save_articles md5 clock st (pre @ b # post) topic =
           save_articles md5 clock st (pre @ post) topic"
    using assms
    by (auto simp: save_articles_def load_articles_def Let_def split: option.splits sum.splits)
  let ?as = "take 100 (sort_desc (?E @ filter ?P (pre @ b # post)))"
  have f: "files (snd (save_articles md5 clock st (pre @ b # post) topic)) (file_path st topic) =
             Some (Json (map to_dict ?as))"
    by (simp only: save_articles_files fun_upd_same)
  have m: "a \<in> set ?E" if "a \<in> set ?as" and "id_art a = id_art b" for a
  proof -
    from that(1) have "a \<in> set (sort_desc (?E @ filter ?P (pre @ b # post)))"
      by (rule in_set_takeD)
    then have "a \<in> set ?E \<or> a \<in> set (filter ?P (pre @ b # post))"
      by (simp only: set_sort_desc set_append Un_iff)
    moreover have "a \<notin> set (filter ?P (pre @ b # post))"
    proof
      assume "a \<in> set (filter ?P (pre @ b # post))"
      then have "a \<in> set (pre @ b # post) \<and> id_art a \<notin> id_art ` set ?E"
        by (simp only: set_filter mem_Collect_eq simp_thms)
      then have "id_art a \<notin> id_art ` set ?E"
        by (rule conjunct2)
      with assms that(2) show False by simp
    qed
    ultimately show ?thesis by fast
  qed
  have 2: "\<exists>as. files (snd (save_articles md5 clock st (pre @ b # post) topic)) (file_path st topic) =
               Some (Json (map to_dict as))
          \<and> (\<forall>a\<in>set as. id_art a = id_art b \<longrightarrow> a \<in> set ?E)"
    using f m by blast
  have 3: "\<exists>ds. files (snd (save_articles md5 clock st (pre @ b # post) topic)) (file_path st topic) =
                 Some (Json ds)
            \<and> (\<forall>d\<in>set ds. d_id d = Some (id_art b) \<longrightarrow> d \<in> set (map to_dict stored))"
    if s: "files st (file_path st topic) = Some (Json (map to_dict stored))
          \<and> (\<forall>a\<in>set stored. published a \<noteq> [])"
  proof -
    from s have E: "?E = stored"
      by (intro load_articles_Json) simp_all
    have "d \<in> set (map to_dict stored)"
      if d: "d \<in> set (map to_dict ?as)" and i: "d_id d = Some (id_art b)" for d
    proof -
      from d obtain a where a: "a \<in> set ?as" and da: "d = to_dict a"
        by (auto simp only: set_map)
      from i da have "id_art a = id_art b" by (simp add: to_dict_def)
      with a have "a \<in> set ?E" by (rule m)
      with E da show ?thesis by simp
    qed
    with f show ?thesis by blast
  qed
  from 1 2 3 show ?thesis by (intro conjI impI)
qed

lemma load_one_article_storage:
  "fst (load_articles md5_ex clock_ex one_article_storage ''all'') = [example_article 0]"
proof (rule load_articles_Json)
  show "files one_article_storage (file_path one_article_storage ''all'') =
          Some (Json (map to_dict [example_article 0]))"
    by (simp add: one_article_storage_def file_path_def)
  show "\<forall>a\<in>set [example_article 0]. published a \<noteq> []"
    by (simp add: example_article_published)
qed

theorem save_drops_known_witness:
  "fst (load_articles md5_ex clock_ex one_article_storage ''all'') = [example_article 0]
   \<and> id_art example_article_edited = id_art (example_article 0)
   \<and> summary example_article_edited \<noteq> summary (example_article 0)
   \<and> files one_article_storage (file_path one_article_storage ''all'') =
       Some (Json (map to_dict [example_article 0]))
   \<and> save_articles md5_ex clock_ex one_article_storage [example_article_edited] ''all'' =
       save_articles md5_ex clock_ex one_article_storage [] ''all''
   \<and> fst (save_articles md5_ex clock_ex one_article_storage [example_article_edited] ''all'') = 0
   \<and> (\<exists>ds. files (snd (save_articles md5_ex clock_ex one_article_storage
                [example_article_edited] ''all''))
              (file_path one_article_storage ''all'') = Some (Json ds)
        \<and> list_all (\<lambda>d. d_id d \<noteq> Some (id_art example_article_edited)
                        \<or> d = to_dict (example_article 0)) ds)
   \<and> fst (load_articles md5_ex clock_ex
            (snd (save_articles md5_ex clock_ex one_article_storage [example_article_edited] ''all''))
            ''all'') = [example_article 0]"
proof -
  let ?st = "snd (save_articles md5_ex clock_ex one_article_storage [example_article_edited] ''all'')"
  have h: "id_art example_article_edited \<in>
             id_art ` set (fst (load_articles md5_ex clock_ex one_article_storage ''all''))"
    by (simp add: load_one_article_storage example_article_edited_id)
  have s: "summary example_article_edited \<noteq> summary (example_article 0)"
    by (simp add: example_article_edited_def example_article_def Article_init_def str_or_def)
  have f0: "files one_article_storage (file_path one_article_storage ''all'') =
       Some (Json (map to_dict [example_article 0]))"
    by (simp add: one_article_storage_def file_path_def)
  have p0: "\<forall>a\<in>set [example_article 0]. published a \<noteq> []"
    by (simp add: example_article_published)
  note t = save_drops_known [OF h, where pre = "[]" and post = "[]"
      and stored = "[example_article 0]", unfolded append_Nil]
  from t have e: "save_articles md5_ex clock_ex one_article_storage [example_article_edited] ''all'' =
           save_articles md5_ex clock_ex one_article_storage [] ''all''"
    by simp
  from t f0 p0 have "\<exists>ds. files ?st (file_path one_article_storage ''all'') = Some (Json ds)
      \<and> (\<forall>d\<in>set ds. d_id d = Some (id_art example_article_edited) \<longrightarrow>
            d \<in> set (map to_dict [example_article 0]))"
    by blast
  then obtain ds where
    ds: "files ?st (file_path one_article_storage ''all'') = Some (Json ds)" and
    un: "\<forall>d\<in>set ds. d_id d = Some (id_art example_article_edited) \<longrightarrow>
            d \<in> set (map to_dict [example_article 0])"
    by blast
  from un have "list_all (\<lambda>d. d_id d \<noteq> Some (id_art example_article_edited)
                        \<or> d = to_dict (example_article 0)) ds"
    by (auto simp: list_all_iff)
  with ds have k: "\<exists>ds. files ?st (file_path one_article_storage ''all'') = Some (Json ds)
        \<and> list_all (\<lambda>d. d_id d \<noteq> Some (id_art example_article_edited)
                        \<or> d = to_dict (example_article 0)) ds"
    by blast
  have c: "fst (save_articles md5_ex clock_ex one_article_storage [example_article_edited] ''all'') = 0"
    by (simp add: save_articles_fst load_one_article_storage example_article_edited_id)
  have "files ?st (file_path ?st ''all'') = Some (Json (map to_dict [example_article 0]))"
    by (simp add: save_articles_files save_articles_file_path load_one_article_storage
        example_article_edited_id sort_desc_def)
  moreover have "\<forall>a\<in>set [example_article 0]. published a \<noteq> []"
    by (simp add: example_article_published)
  ultimately have l: "fst (load_articles md5_ex clock_ex ?st ''all'') = [example_article 0]"
    by (rule load_articles_Json)
  from load_one_article_storage example_article_edited_id s f0 e c k l show ?thesis
    by (intro conjI)
qed

section \<open>Classification\<close>

subsection \<open>The buckets\<close>

lemma map_of_bucket_append:
  "map_of (bucket_append k r result) k' =
     (if k' = k then map_option (\<lambda>v. v @ [r]) (map_of result k) else map_of result k')"
  by (simp add: bucket_append_def map_of_map_entry split: option.splits)

lemma keys_bucket_append: "map fst (bucket_append k r result) = map fst result"
  unfolding bucket_append_def by (induction result) auto

subsection \<open>The inner loop\<close>

lemma classify_topics_heap:
  "fst (snd (classify_topics ts text r (result, h, matched))) =
     h(r := (h r)\<lparr>topics := topics (h r) @ map name (filter (\<lambda>t. matches t text) ts)\<rparr>)"
  by (induction ts arbitrary: result h matched) simp_all

lemma classify_topics_matched:
  "snd (snd (classify_topics ts text r (result, h, matched))) =
     (matched \<or> (\<exists>t\<in>set ts. matches t text))"
  by (induction ts arbitrary: result h matched) auto

lemma classify_topics_keys:
  "map fst (fst (classify_topics ts text r (result, h, matched))) = map fst result"
  by (induction ts arbitrary: result h matched) (simp_all add: keys_bucket_append)

lemma classify_topics_grow:
  "map_of result k = Some b \<Longrightarrow>
   \<exists>b'. map_of (fst (classify_topics ts text r (result, h, matched))) k = Some (b @ b')"
proof (induction ts arbitrary: result h matched b)
  case Nil
  then show ?case by simp
next
  case (Cons t ts)
  show ?case
  proof (cases "matches t text")
    case False
    with Cons show ?thesis by simp
  next
    case True
    let ?res = "bucket_append (name t) r result"
    from Cons.prems obtain c where c: "map_of ?res k = Some (b @ c)"
      by (cases "k = name t") (simp_all add: map_of_bucket_append)
    from Cons.IH [OF c] obtain b' where
      "map_of (fst (classify_topics ts text r
         (?res, h(r := (h r)\<lparr>topics := topics (h r) @ [name t]\<rparr>), True))) k = Some ((b @ c) @ b')"
      by blast
    with True show ?thesis by simp
  qed
qed

lemma classify_topics_member:
  "t \<in> set ts \<Longrightarrow> matches t text \<Longrightarrow> map_of result (name t) = Some b \<Longrightarrow>
   \<exists>b'. map_of (fst (classify_topics ts text r (result, h, matched))) (name t) = Some b'
        \<and> r \<in> set b'"
proof (induction ts arbitrary: result h matched b)
  case Nil
  then show ?case by simp
next
  case (Cons t' ts)
  show ?case
  proof (cases "t = t'")
    case True
    let ?res = "bucket_append (name t) r result"
    from Cons.prems(3) have "map_of ?res (name t) = Some (b @ [r])"
      by (simp add: map_of_bucket_append)
    from classify_topics_grow [OF this] obtain b' where
      "map_of (fst (classify_topics ts text r
         (?res, h(r := (h r)\<lparr>topics := topics (h r) @ [name t]\<rparr>), True))) (name t) =
       Some ((b @ [r]) @ b')"
      by blast
    with True Cons.prems(2) show ?thesis by simp
  next
    case False
    with Cons.prems(1) have t: "t \<in> set ts" by simp
    show ?thesis
    proof (cases "matches t' text")
      case True
      let ?res = "bucket_append (name t') r result"
      from Cons.prems(3) obtain c where c: "map_of ?res (name t) = Some c"
        by (cases "name t = name t'") (simp_all add: map_of_bucket_append)
      from Cons.IH [OF t Cons.prems(2) c] True show ?thesis by simp
    next
      case False
      from Cons.IH [OF t Cons.prems(2) Cons.prems(3)] False show ?thesis by simp
    qed
  qed
qed


subsection \<open>The outer loop\<close>

lemma uncategorized_grow:
  "map_of result k = Some b \<Longrightarrow>
   \<exists>d. map_of (if \<not> matched then bucket_append ''uncategorized'' r result else result) k =
         Some (b @ d)"
  by (cases matched; cases "k = ''uncategorized''") (simp_all add: map_of_bucket_append)

lemma classify_loop_Cons:
  "classify_topics ts (title (h r) @ '' '' @ summary (h r)) r (result, h, False) =
     (result', h', matched) \<Longrightarrow>
   classify_loop ts (r # rs) (result, h) =
     classify_loop ts rs
       (if \<not> matched then bucket_append ''uncategorized'' r result' else result', h')"
  by (simp add: Let_def)

lemma classify_loop_heap:
  "snd (classify_loop ts articles (result, h)) x =
     (h x)\<lparr>topics := topics (h x) @
        concat (replicate (count_list articles x)
          (map name (filter (\<lambda>t. matches t (title (h x) @ '' '' @ summary (h x))) ts)))\<rparr>"
proof (induction articles arbitrary: result h)
  case Nil
  show ?case by simp
next
  case (Cons r rs)
  let ?text = "title (h r) @ '' '' @ summary (h r)"
  let ?s = "classify_topics ts ?text r (result, h, False)"
  let ?h = "h(r := (h r)\<lparr>topics := topics (h r) @ map name (filter (\<lambda>t. matches t ?text) ts)\<rparr>)"
  obtain result' h' matched where s: "?s = (result', h', matched)"
    by (cases ?s) auto
  from classify_topics_heap [of ts ?text r result h False] s have h': "h' = ?h" by simp
  let ?result = "if \<not> matched then bucket_append ''uncategorized'' r result' else result'"
  have "snd (classify_loop ts (r # rs) (result, h)) x = snd (classify_loop ts rs (?result, ?h)) x"
    by (simp only: classify_loop_Cons [OF s] h')
  also have "\<dots> = (?h x)\<lparr>topics := topics (?h x) @
        concat (replicate (count_list rs x)
          (map name (filter (\<lambda>t. matches t (title (?h x) @ '' '' @ summary (?h x))) ts)))\<rparr>"
    by (rule Cons.IH)
  also have "\<dots> = (h x)\<lparr>topics := topics (h x) @
        concat (replicate (count_list (r # rs) x)
          (map name (filter (\<lambda>t. matches t (title (h x) @ '' '' @ summary (h x))) ts)))\<rparr>"
    by simp
  finally show ?case .
qed

lemma classify_loop_keys:
  "map fst (fst (classify_loop ts articles (result, h))) = map fst result"
proof (induction articles arbitrary: result h)
  case Nil
  show ?case by simp
next
  case (Cons r rs)
  let ?text = "title (h r) @ '' '' @ summary (h r)"
  obtain result' h' matched where s: "classify_topics ts ?text r (result, h, False) = (result', h', matched)"
    by (cases "classify_topics ts ?text r (result, h, False)") auto
  from classify_topics_keys [of ts ?text r result h False] s
  have k: "map fst result' = map fst result" by simp
  show ?case
    by (simp only: classify_loop_Cons [OF s] Cons.IH) (simp add: keys_bucket_append k)
qed

lemma classify_loop_grow:
  "map_of result k = Some b \<Longrightarrow>
   \<exists>b'. map_of (fst (classify_loop ts articles (result, h))) k = Some (b @ b')"
proof (induction articles arbitrary: result h b)
  case Nil
  then show ?case by simp
next
  case (Cons r rs)
  let ?text = "title (h r) @ '' '' @ summary (h r)"
  obtain result' h' matched where s: "classify_topics ts ?text r (result, h, False) = (result', h', matched)"
    by (cases "classify_topics ts ?text r (result, h, False)") auto
  from classify_topics_grow [OF Cons.prems, of ts ?text r h False] s
  obtain c where c: "map_of result' k = Some (b @ c)" by auto
  let ?result = "if \<not> matched then bucket_append ''uncategorized'' r result' else result'"
  from uncategorized_grow [OF c] obtain d where d: "map_of ?result k = Some ((b @ c) @ d)"
    by blast
  from Cons.IH [OF d] obtain b' where
    "map_of (fst (classify_loop ts rs (?result, h'))) k = Some (((b @ c) @ d) @ b')"
    by blast
  then show ?case by (simp only: classify_loop_Cons [OF s]) simp
qed

lemma classify_loop_member:
  "r \<in> set articles \<Longrightarrow> t \<in> set ts \<Longrightarrow>
   matches t (title (h r) @ '' '' @ summary (h r)) \<Longrightarrow>
   map_of result (name t) = Some b \<Longrightarrow>
   \<exists>b'. map_of (fst (classify_loop ts articles (result, h))) (name t) = Some b' \<and> r \<in> set b'"
proof (induction articles arbitrary: result h b)
  case Nil
  then show ?case by simp
next
  case (Cons r0 rs)
  let ?text = "title (h r0) @ '' '' @ summary (h r0)"
  obtain result' h' matched where s: "classify_topics ts ?text r0 (result, h, False) = (result', h', matched)"
    by (cases "classify_topics ts ?text r0 (result, h, False)") auto
  let ?result = "if \<not> matched then bucket_append ''uncategorized'' r0 result' else result'"
  have step: "fst (classify_loop ts (r0 # rs) (result, h)) = fst (classify_loop ts rs (?result, h'))"
    by (simp only: classify_loop_Cons [OF s])
  from classify_topics_heap [of ts ?text r0 result h False] s
  have h': "h' = h(r0 := (h r0)\<lparr>topics := topics (h r0) @ map name (filter (\<lambda>t. matches t ?text) ts)\<rparr>)"
    by simp
  show ?case
  proof (cases "r = r0")
    case True
    from classify_topics_member [OF Cons.prems(2) _ Cons.prems(4), of ?text r0 h False] Cons.prems(3) True s
    obtain c where c: "map_of result' (name t) = Some c" and rc: "r \<in> set c" by auto
    from uncategorized_grow [OF c] obtain d where d: "map_of ?result (name t) = Some (c @ d)"
      by blast
    from classify_loop_grow [OF d] obtain b' where
      "map_of (fst (classify_loop ts rs (?result, h'))) (name t) = Some ((c @ d) @ b')"
      by blast
    with rc show ?thesis unfolding step by simp
  next
    case False
    with Cons.prems(1) have r: "r \<in> set rs" by simp
    from classify_topics_grow [OF Cons.prems(4), of ts ?text r0 h False] s
    obtain c where c: "map_of result' (name t) = Some (b @ c)" by auto
    from uncategorized_grow [OF this] obtain d where d: "map_of ?result (name t) = Some d"
      by blast
    from False Cons.prems(3) have m: "matches t (title (h' r) @ '' '' @ summary (h' r))"
      by (simp add: h')
    from Cons.IH [where h = h', OF r Cons.prems(2) m d] show ?thesis unfolding step .
  qed
qed

lemma classify_loop_uncategorized:
  "r \<in> set articles \<Longrightarrow>
   \<forall>t\<in>set ts. \<not> matches t (title (h r) @ '' '' @ summary (h r)) \<Longrightarrow>
   map_of result ''uncategorized'' = Some b \<Longrightarrow>
   \<exists>b'. map_of (fst (classify_loop ts articles (result, h))) ''uncategorized'' = Some b'
        \<and> r \<in> set b'"
proof (induction articles arbitrary: result h b)
  case Nil
  then show ?case by simp
next
  case (Cons r0 rs)
  let ?text = "title (h r0) @ '' '' @ summary (h r0)"
  obtain result' h' matched where s: "classify_topics ts ?text r0 (result, h, False) = (result', h', matched)"
    by (cases "classify_topics ts ?text r0 (result, h, False)") auto
  let ?result = "if \<not> matched then bucket_append ''uncategorized'' r0 result' else result'"
  have step: "fst (classify_loop ts (r0 # rs) (result, h)) = fst (classify_loop ts rs (?result, h'))"
    by (simp only: classify_loop_Cons [OF s])
  from classify_topics_heap [of ts ?text r0 result h False] s
  have h': "h' = h(r0 := (h r0)\<lparr>topics := topics (h r0) @ map name (filter (\<lambda>t. matches t ?text) ts)\<rparr>)"
    by simp
  from classify_topics_matched [of ts ?text r0 result h False] s
  have matched: "matched = (\<exists>t\<in>set ts. matches t ?text)" by simp
  from classify_topics_grow [OF Cons.prems(3), of ts ?text r0 h False] s
  obtain c where c: "map_of result' ''uncategorized'' = Some (b @ c)" by auto
  show ?case
  proof (cases "r = r0")
    case True
    with Cons.prems(2) matched have "\<not> matched" by simp
    with c have d: "map_of ?result ''uncategorized'' = Some ((b @ c) @ [r0])"
      by (simp add: map_of_bucket_append)
    from classify_loop_grow [OF d] obtain b' where
      "map_of (fst (classify_loop ts rs (?result, h'))) ''uncategorized'' = Some (((b @ c) @ [r0]) @ b')"
      by blast
    with True show ?thesis unfolding step by simp
  next
    case False
    with Cons.prems(1) have r: "r \<in> set rs" by simp
    from uncategorized_grow [OF c] obtain d where d: "map_of ?result ''uncategorized'' = Some d"
      by blast
    from False Cons.prems(2) have m: "\<forall>t\<in>set ts. \<not> matches t (title (h' r) @ '' '' @ summary (h' r))"
      by (simp add: h')
    from Cons.IH [where h = h', OF r m d] show ?thesis unfolding step .
  qed
qed

subsection \<open>The result dictionary\<close>

lemma map_of_initial_topics:
  "map_of (fold (\<lambda>topic d. AList.update (name topic) [] d) ts d0) k =
     (if k \<in> name ` set ts then Some [] else map_of d0 k)"
  by (induction ts arbitrary: d0) (auto simp: update_conv')

lemma distinct_initial_topics:
  "distinct (map fst d0) \<Longrightarrow>
   distinct (map fst (fold (\<lambda>topic d. AList.update (name topic) [] d) ts d0))"
  by (induction ts arbitrary: d0) (simp_all add: distinct_update)


lemma map_of_initial:
  "k = ''uncategorized'' \<or> k \<in> name ` set ts \<Longrightarrow>
   map_of (AList.update ''uncategorized'' []
            (fold (\<lambda>topic d. AList.update (name topic) [] d) ts [])) k = Some []"
  by (auto simp: update_conv' map_of_initial_topics)

lemma classify_fst:
  "fst (classify ts articles h) =
     filter (\<lambda>(k, v). v \<noteq> [])
       (fst (classify_loop ts articles
          (AList.update ''uncategorized'' []
             (fold (\<lambda>topic d. AList.update (name topic) [] d) ts []), h)))"
  by (simp add: classify_def Let_def split: prod.splits)

lemma classify_snd:
  "snd (classify ts articles h) =
     snd (classify_loop ts articles
          (AList.update ''uncategorized'' []
             (fold (\<lambda>topic d. AList.update (name topic) [] d) ts []), h))"
  by (simp add: classify_def Let_def split: prod.splits)

lemma classify_bucket:
  assumes "r \<in> set articles" and "t \<in> set ts"
    and "matches t (title (h r) @ '' '' @ summary (h r))"
  shows "\<exists>b. map_of (fst (classify ts articles h)) (name t) = Some b \<and> r \<in> set b"
proof -
  let ?result = "AList.update ''uncategorized'' []
                   (fold (\<lambda>topic d. AList.update (name topic) [] d) ts [])"
  from assms(2) have "map_of ?result (name t) = Some []"
    by (intro map_of_initial) simp
  from classify_loop_member [where h = h, OF assms this]
  obtain b where b: "map_of (fst (classify_loop ts articles (?result, h))) (name t) = Some b"
    and r: "r \<in> set b"
    by blast
  from r have "b \<noteq> []" by auto
  with b have "map_of (filter (\<lambda>(k, v). v \<noteq> []) (fst (classify_loop ts articles (?result, h))))
                 (name t) = Some b"
    by (intro map_of_filter_in)
  with r show ?thesis by (simp only: classify_fst) blast
qed

lemma classify_uncategorized:
  assumes "r \<in> set articles"
    and "\<forall>t\<in>set ts. \<not> matches t (title (h r) @ '' '' @ summary (h r))"
  shows "\<exists>b. map_of (fst (classify ts articles h)) ''uncategorized'' = Some b \<and> r \<in> set b"
proof -
  let ?result = "AList.update ''uncategorized'' []
                   (fold (\<lambda>topic d. AList.update (name topic) [] d) ts [])"
  have "map_of ?result ''uncategorized'' = Some []"
    by (intro map_of_initial) simp
  from classify_loop_uncategorized [where h = h, OF assms this]
  obtain b where b: "map_of (fst (classify_loop ts articles (?result, h))) ''uncategorized'' = Some b"
    and r: "r \<in> set b"
    by blast
  from r have "b \<noteq> []" by auto
  with b have "map_of (filter (\<lambda>(k, v). v \<noteq> []) (fst (classify_loop ts articles (?result, h))))
                 ''uncategorized'' = Some b"
    by (intro map_of_filter_in)
  with r show ?thesis by (simp only: classify_fst) blast
qed

lemma classify_keys_distinct: "distinct (map fst (fst (classify ts articles h)))"
proof -
  let ?result = "AList.update ''uncategorized'' []
                   (fold (\<lambda>topic d. AList.update (name topic) [] d) ts [])"
  have "distinct (map fst ?result)"
    by (intro distinct_update distinct_initial_topics) simp
  then have "distinct (map fst (fst (classify_loop ts articles (?result, h))))"
    by (simp only: classify_loop_keys)
  then show ?thesis
    by (simp only: classify_fst distinct_map_filter)
qed

text \<open>
  Claim C6: classification is multi-label. An article of the batch whose search text
  (title, a space, summary) matches two topics is in the bucket of each of them; after
  the call its \<^verbatim>\<open>topics\<close> field is the old list followed by the names of the matching
  topics in the order of the topic list, once for every time the article stands in the
  batch; an article that matches no topic is in the bucket \<^verbatim>\<open>uncategorized\<close>; and no
  bucket of the result is empty. The keys of the result are distinct, so \<open>map_of\<close> is the
  dictionary lookup.
\<close>

theorem classify_multi_label:
  assumes "r \<in> set articles"
  shows "(t1 \<in> set ts \<and> t2 \<in> set ts
          \<and> matches t1 (title (h r) @ '' '' @ summary (h r))
          \<and> matches t2 (title (h r) @ '' '' @ summary (h r)) \<longrightarrow>
          (\<exists>b1 b2. map_of (fst (classify ts articles h)) (name t1) = Some b1 \<and> r \<in> set b1
                 \<and> map_of (fst (classify ts articles h)) (name t2) = Some b2 \<and> r \<in> set b2))
     \<and> snd (classify ts articles h) r =
         (h r)\<lparr>topics := topics (h r) @
            concat (replicate (count_list articles r)
              (map name (filter (\<lambda>t. matches t (title (h r) @ '' '' @ summary (h r))) ts)))\<rparr>
     \<and> ((\<forall>t\<in>set ts. \<not> matches t (title (h r) @ '' '' @ summary (h r))) \<longrightarrow>
          (\<exists>b. map_of (fst (classify ts articles h)) ''uncategorized'' = Some b \<and> r \<in> set b))
     \<and> (\<forall>(k, b)\<in>set (fst (classify ts articles h)). b \<noteq> [])
     \<and> distinct (map fst (fst (classify ts articles h)))"
proof (intro conjI impI)
  assume a: "t1 \<in> set ts \<and> t2 \<in> set ts
             \<and> matches t1 (title (h r) @ '' '' @ summary (h r))
             \<and> matches t2 (title (h r) @ '' '' @ summary (h r))"
  from a assms classify_bucket [of r articles t1 ts h]
  obtain b1 where b1: "map_of (fst (classify ts articles h)) (name t1) = Some b1" "r \<in> set b1"
    by blast
  from a assms classify_bucket [of r articles t2 ts h]
  obtain b2 where b2: "map_of (fst (classify ts articles h)) (name t2) = Some b2" "r \<in> set b2"
    by blast
  from b1 b2 show "\<exists>b1 b2. map_of (fst (classify ts articles h)) (name t1) = Some b1 \<and> r \<in> set b1
                 \<and> map_of (fst (classify ts articles h)) (name t2) = Some b2 \<and> r \<in> set b2"
    by blast
next
  show "snd (classify ts articles h) r =
         (h r)\<lparr>topics := topics (h r) @
            concat (replicate (count_list articles r)
              (map name (filter (\<lambda>t. matches t (title (h r) @ '' '' @ summary (h r))) ts)))\<rparr>"
    by (simp only: classify_snd classify_loop_heap)
next
  assume "\<forall>t\<in>set ts. \<not> matches t (title (h r) @ '' '' @ summary (h r))"
  with assms show "\<exists>b. map_of (fst (classify ts articles h)) ''uncategorized'' = Some b \<and> r \<in> set b"
    by (rule classify_uncategorized)
next
  show "\<forall>(k, b)\<in>set (fst (classify ts articles h)). b \<noteq> []"
    by (simp add: classify_fst)
next
  show "distinct (map fst (fst (classify ts articles h)))"
    by (rule classify_keys_distinct)
qed

text \<open>
  Articles 0 and 3 of the example heap under the topics Two (keyword \<^verbatim>\<open>xx\<close>) and Three
  (keyword \<^verbatim>\<open>XXX\<close>): article 3 is in both buckets, article 0 is uncategorized.
\<close>

lemma classify_ex:
  "fst (classify [topic_two, topic_three] [0, 3] heap_ex) =
     [(''Two'', [3]), (''Three'', [3]), (''uncategorized'', [0])]"
  by (simp add: classify_def topic_two_def topic_three_def Topic_init_def heap_ex_def
      example_article_def Article_init_def str_or_def matches_def lower_def lower_char_def
      bucket_append_def eval_nat_numeral Let_def)


lemma example_matches:
  "matches topic_two (title (heap_ex 3) @ '' '' @ summary (heap_ex 3))"
  "matches topic_three (title (heap_ex 3) @ '' '' @ summary (heap_ex 3))"
  "\<not> matches topic_two (title (heap_ex 0) @ '' '' @ summary (heap_ex 0))"
  "\<not> matches topic_three (title (heap_ex 0) @ '' '' @ summary (heap_ex 0))"
  by (simp_all add: topic_two_def topic_three_def Topic_init_def heap_ex_def
      example_article_def Article_init_def str_or_def matches_def lower_def lower_char_def
      eval_nat_numeral)

theorem classify_multi_label_witness:
  "(3::nat) \<in> set [0, 3]
   \<and> matches topic_two (title (heap_ex 3) @ '' '' @ summary (heap_ex 3))
   \<and> matches topic_three (title (heap_ex 3) @ '' '' @ summary (heap_ex 3))
   \<and> (\<exists>b1 b2.
         map_of (fst (classify [topic_two, topic_three] [0, 3] heap_ex)) (name topic_two) = Some b1
         \<and> 3 \<in> set b1
         \<and> map_of (fst (classify [topic_two, topic_three] [0, 3] heap_ex)) (name topic_three) = Some b2
         \<and> 3 \<in> set b2)
   \<and> topics (snd (classify [topic_two, topic_three] [0, 3] heap_ex) 3) = [''Two'', ''Three'']
   \<and> (0::nat) \<in> set [0, 3]
   \<and> \<not> matches topic_two (title (heap_ex 0) @ '' '' @ summary (heap_ex 0))
   \<and> \<not> matches topic_three (title (heap_ex 0) @ '' '' @ summary (heap_ex 0))
   \<and> (\<exists>b. map_of (fst (classify [topic_two, topic_three] [0, 3] heap_ex)) ''uncategorized'' = Some b
         \<and> 0 \<in> set b)"
proof -
  let ?ts = "[topic_two, topic_three]"
  have r3: "(3::nat) \<in> set [0, 3]" and r0: "(0::nat) \<in> set [0, 3]"
    by simp_all
  note t3 = classify_multi_label [OF r3, where ts = ?ts and h = heap_ex
      and ?t1.0 = topic_two and ?t2.0 = topic_three]
  note t0 = classify_multi_label [OF r0, where ts = ?ts and h = heap_ex
      and ?t1.0 = topic_two and ?t2.0 = topic_three]
  have a: "\<exists>b1 b2.
         map_of (fst (classify ?ts [0, 3] heap_ex)) (name topic_two) = Some b1 \<and> 3 \<in> set b1
         \<and> map_of (fst (classify ?ts [0, 3] heap_ex)) (name topic_three) = Some b2 \<and> 3 \<in> set b2"
  proof (rule mp [OF conjunct1 [OF t3]])
    show "topic_two \<in> set ?ts \<and> topic_three \<in> set ?ts
          \<and> matches topic_two (title (heap_ex 3) @ '' '' @ summary (heap_ex 3))
          \<and> matches topic_three (title (heap_ex 3) @ '' '' @ summary (heap_ex 3))"
      using example_matches(1,2) by simp
  qed
  from conjunct1 [OF conjunct2 [OF t3]]
  have b: "topics (snd (classify ?ts [0, 3] heap_ex) 3) = [''Two'', ''Three'']"
    using example_matches(1,2)
    by (simp add: heap_ex_def example_article_def Article_init_def topic_two_def topic_three_def
        Topic_init_def)
  have c: "\<exists>b. map_of (fst (classify ?ts [0, 3] heap_ex)) ''uncategorized'' = Some b \<and> 0 \<in> set b"
  proof (rule mp [OF conjunct1 [OF conjunct2 [OF conjunct2 [OF t0]]]])
    show "\<forall>t\<in>set ?ts. \<not> matches t (title (heap_ex 0) @ '' '' @ summary (heap_ex 0))"
      using example_matches(3,4) by simp
  qed
  from r3 r0 example_matches a b c show ?thesis by blast
qed

end
